theory Spec2Isabelle
  imports Complex_Main "HOL-Library.Multiset"
begin

section \<open>Expression nodes\<close>

text \<open>
  The expression tree of \<^verbatim>\<open>sympy/core\<close> as far as \<^verbatim>\<open>add.py\<close> looks at it.
  \<^verbatim>\<open>Rational r\<close> is a number \<^verbatim>\<open>p/q\<close> with \<^verbatim>\<open>q > 0\<close> in lowest terms (integers
  are the rationals with \<^verbatim>\<open>q = 1\<close>); \<^verbatim>\<open>Infinity\<close>, \<^verbatim>\<open>NegativeInfinity\<close> and \<^verbatim>\<open>NaN\<close>
  are the numbers with denominator \<^verbatim>\<open>0\<close> (\<^verbatim>\<open>flatten\<close> guards with \<^verbatim>\<open>a.is_Rational and a.q\<close>,
  \<^verbatim>\<open>primitive\<close> with \<^verbatim>\<open>not c.q\<close>). A \<^verbatim>\<open>Symbol\<close> has a name and the assumptions it was
  created with (\<^verbatim>\<open>Symbol('x', real=True)\<close>); both take part in structural equality. \<^verbatim>\<open>ComplexInfinity\<close> is not a \<^verbatim>\<open>Number\<close>:
  \<^verbatim>\<open>flatten\<close> tests \<^verbatim>\<open>o is S.ComplexInfinity\<close> in a branch of its own after \<^verbatim>\<open>o.is_Number\<close>.
  Floating point numbers are left out.
\<close>

datatype expr =
    Rational rat
  | Infinity
  | NegativeInfinity
  | NaN
  | ComplexInfinity
  | Symbol string "(string \<times> bool) list"
  | Add "expr list"
  | Mul "expr list"
  | Power expr expr
  | Order expr

abbreviation Zero :: expr where "Zero \<equiv> Rational 0"
abbreviation One :: expr where "One \<equiv> Rational 1"
abbreviation NegativeOne :: expr where "NegativeOne \<equiv> Rational (- 1)"

fun is_Number :: "expr \<Rightarrow> bool" where
  "is_Number (Rational r) = True"
| "is_Number Infinity = True"
| "is_Number NegativeInfinity = True"
| "is_Number NaN = True"
| "is_Number e = False"

fun is_Rational :: "expr \<Rightarrow> bool" where
  "is_Rational e = is_Number e"

fun is_Add :: "expr \<Rightarrow> bool" where
  "is_Add (Add xs) = True"
| "is_Add e = False"

fun is_Mul :: "expr \<Rightarrow> bool" where
  "is_Mul (Mul xs) = True"
| "is_Mul e = False"

fun is_Pow :: "expr \<Rightarrow> bool" where
  "is_Pow (Power b e) = True"
| "is_Pow e = False"

fun is_Order :: "expr \<Rightarrow> bool" where
  "is_Order (Order e) = True"
| "is_Order e = False"

fun args :: "expr \<Rightarrow> expr list" where
  "args (Add xs) = xs"
| "args (Mul xs) = xs"
| "args (Power b e) = [b, e]"
| "args (Order e) = [e]"
| "args e = []"

text \<open>The fields \<^verbatim>\<open>p\<close> and \<^verbatim>\<open>q\<close> of a number.\<close>

fun p_of :: "expr \<Rightarrow> int" where
  "p_of (Rational r) = fst (quotient_of r)"
| "p_of Infinity = 1"
| "p_of NegativeInfinity = - 1"
| "p_of e = 0"

fun q_of :: "expr \<Rightarrow> int" where
  "q_of (Rational r) = snd (quotient_of r)"
| "q_of e = 0"

text \<open>
  Truth value of an expression in a condition (\<^verbatim>\<open>assert a\<close>, \<^verbatim>\<open>if ch:\<close>,
  \<^verbatim>\<open>if not bargs[0]:\<close>, \<^verbatim>\<open>if c:\<close>): only the number zero is false.
\<close>

fun nonzero :: "expr \<Rightarrow> bool" where
  "nonzero (Rational r) = (r \<noteq> 0)"
| "nonzero e = True"

fun is_Integer :: "expr \<Rightarrow> bool" where
  "is_Integer (Rational r) = (of_int \<lfloor>r\<rfloor> = r)"
| "is_Integer e = False"

fun is_negative :: "expr \<Rightarrow> bool" where
  "is_negative (Rational r) = (r < 0)"
| "is_negative NegativeInfinity = True"
| "is_negative e = False"

section \<open>Numeral arithmetic\<close>

text \<open>
  Modelled from the spec: the sum of two numerals (\<^verbatim>\<open>Number.__add__\<close> of
  \<^verbatim>\<open>numbers.py\<close>, which is not among the sources). Exact rationals add exactly, an
  infinity absorbs every bounded numeral, "PositiveInfinity + NegativeInfinity resolves to
  NotANumber", and NotANumber absorbs everything. Every call site of \<^verbatim>\<open>flatten\<close>
  passes two numerals; the last equation is there for totality only.
\<close>

fun num_add :: "expr \<Rightarrow> expr \<Rightarrow> expr" where
  "num_add NaN b = NaN"
| "num_add a NaN = NaN"
| "num_add Infinity NegativeInfinity = NaN"
| "num_add NegativeInfinity Infinity = NaN"
| "num_add Infinity b = Infinity"
| "num_add a Infinity = Infinity"
| "num_add NegativeInfinity b = NegativeInfinity"
| "num_add a NegativeInfinity = NegativeInfinity"
| "num_add (Rational r) (Rational s) = Rational (r + s)"
| "num_add a b = Add [a, b]"

text \<open>
  Modelled from the spec: boundedness of the numerals and of ComplexInfinity
  (\<^verbatim>\<open>is_bounded\<close> of \<^verbatim>\<open>numbers.py\<close>): \<^verbatim>\<open>True\<close> for a rational, \<^verbatim>\<open>False\<close> for the
  three infinities, unknown (\<^verbatim>\<open>None\<close>) for NotANumber.
\<close>

fun number_is_bounded :: "expr \<Rightarrow> bool option" where
  "number_is_bounded (Rational r) = Some True"
| "number_is_bounded Infinity = Some False"
| "number_is_bounded NegativeInfinity = Some False"
| "number_is_bounded ComplexInfinity = Some False"
| "number_is_bounded e = None"

section \<open>Collaborators\<close>

text \<open>
  What \<^verbatim>\<open>add.py\<close> calls and the sources do not contain is a parameter:
  \<^item> \<^verbatim>\<open>hash\<close>: Python's \<^verbatim>\<open>hash\<close> of a node, the sort key;
  \<^item> \<^verbatim>\<open>contains\<close>: \<^verbatim>\<open>Order.contains\<close>;
  \<^item> \<^verbatim>\<open>mul c a\<close>: the product \<^verbatim>\<open>c*a\<close> and \<^verbatim>\<open>Mul(c, s)\<close> of \<^verbatim>\<open>mul.py\<close>;
  \<^item> \<^verbatim>\<open>power b e\<close>: the constructor \<^verbatim>\<open>Pow(b, e)\<close> of \<^verbatim>\<open>power.py\<close>;
  \<^item> the assumption queries on a node, each \<^verbatim>\<open>True\<close>, \<^verbatim>\<open>False\<close> or \<^verbatim>\<open>None\<close>.
\<close>

record collaborators =
  hash :: "expr \<Rightarrow> int"
  contains :: "expr \<Rightarrow> expr \<Rightarrow> bool"
  mul :: "expr \<Rightarrow> expr \<Rightarrow> expr"
  power :: "expr \<Rightarrow> expr \<Rightarrow> expr"
  is_commutative :: "expr \<Rightarrow> bool option"
  is_nonnegative :: "expr \<Rightarrow> bool option"
  is_nonpositive :: "expr \<Rightarrow> bool option"
  is_real :: "expr \<Rightarrow> bool option"
  is_bounded :: "expr \<Rightarrow> bool option"
  is_finite :: "expr \<Rightarrow> bool option"
  is_infinitesimal :: "expr \<Rightarrow> bool option"

text \<open>A three-valued answer in a Python condition: \<^verbatim>\<open>None\<close> and \<^verbatim>\<open>False\<close> are false.\<close>

fun truthy :: "bool option \<Rightarrow> bool" where
  "truthy (Some True) = True"
| "truthy b = False"

definition bounded :: "collaborators \<Rightarrow> expr \<Rightarrow> bool option" where
  "bounded E e =
     (if is_Number e \<or> e = ComplexInfinity then number_is_bounded e else is_bounded E e)"

text \<open>
  Modelled from the spec: \<^verbatim>\<open>as_coeff_Mul\<close> of \<^verbatim>\<open>mul.py\<close> and \<^verbatim>\<open>expr.py\<close>, the
  "coefficient-extraction protocol" of the Product component; it is the multiplicative twin of
  \<^verbatim>\<open>Add.as_coeff_Add\<close> below. \<^verbatim>\<open>as_base_exp\<close> returns the two operands of a power.
\<close>

fun Mul_from_args :: "expr list \<Rightarrow> expr" where
  "Mul_from_args [] = One"
| "Mul_from_args [x] = x"
| "Mul_from_args xs = Mul xs"

fun as_coeff_Mul :: "expr \<Rightarrow> expr \<times> expr" where
  "as_coeff_Mul (Mul (c # rest)) =
     (if is_Number c then (c, Mul_from_args rest) else (One, Mul (c # rest)))"
| "as_coeff_Mul e = (if is_Number e then (e, One) else (One, e))"

fun as_base_exp :: "expr \<Rightarrow> expr \<times> expr" where
  "as_base_exp (Power b e) = (b, e)"
| "as_base_exp e = (e, One)"

text \<open>\<^verbatim>\<open>_new_rawargs\<close> / \<^verbatim>\<open>_from_args\<close> of an \<^verbatim>\<open>Add\<close>: no canonicalization.\<close>

fun Add_from_args :: "expr list \<Rightarrow> expr" where
  "Add_from_args [] = Zero"
| "Add_from_args [x] = x"
| "Add_from_args xs = Add xs"

text \<open>The exceptions the code can raise; a function that can raise returns \<^verbatim>\<open>Inl\<close> of one.\<close>

datatype error = AssertionError | IndexError | ZeroDivisionError

text \<open>
  \<^verbatim>\<open>Add.as_coeff_Add\<close> (lines 296-306); \<^verbatim>\<open>self.args[0]\<close> of a sum without operands
  raises. On another node it is \<^verbatim>\<open>(0, self)\<close>, on a number \<^verbatim>\<open>(self, 0)\<close>.
\<close>

fun as_coeff_Add :: "expr \<Rightarrow> error + expr \<times> expr" where
  "as_coeff_Add (Add []) = Inl IndexError"
| "as_coeff_Add (Add (c # rest)) =
     (if is_Number c then (if length rest = 1 then Inr (c, hd rest) else Inr (c, Add_from_args rest))
      else Inr (Zero, Add (c # rest)))"
| "as_coeff_Add e = (if is_Number e then Inr (e, Zero) else Inr (Zero, e))"

text \<open>\<^verbatim>\<open>Add.make_args\<close>: the operands of a sum, or the node alone.\<close>

fun make_args :: "expr \<Rightarrow> expr list" where
  "make_args (Add xs) = xs"
| "make_args e = [e]"

section \<open>Add.flatten\<close>

subsection \<open>The term collector (lines 65-147)\<close>

text \<open>
  \<^verbatim>\<open>terms\<close> is the dictionary term -> coeff, kept as an association list in insertion
  order; \<^verbatim>\<open>terms[s] += c\<close> when \<^verbatim>\<open>s in terms\<close>, else \<^verbatim>\<open>terms[s] = c\<close>.
\<close>

fun add_term :: "expr \<Rightarrow> expr \<Rightarrow> (expr \<times> expr) list \<Rightarrow> (expr \<times> expr) list" where
  "add_term s c [] = [(s, c)]"
| "add_term s c ((k, v) # ts) =
     (if k = s then (k, num_add v c) # ts else (k, v) # add_term s c ts)"

datatype collected =
    Abort_NaN
  | Collected "(expr \<times> expr) list" expr "expr list"

text \<open>
  The loop \<^verbatim>\<open>for o in seq\<close>. The body appends to \<^verbatim>\<open>seq\<close> while the loop runs, so the
  list is a work list: the head is the current \<^verbatim>\<open>o\<close>, new elements go to the end. What
  \<^verbatim>\<open>c*a\<close> and \<^verbatim>\<open>Pow(b, e)\<close> append is up to the collaborators, so the loop need not end:
  the first argument bounds the number of iterations, and \<^verbatim>\<open>None\<close> says the bound was hit.
\<close>

fun collect ::
  "collaborators \<Rightarrow> nat \<Rightarrow> expr list \<Rightarrow> (expr \<times> expr) list \<Rightarrow> expr \<Rightarrow> expr list
     \<Rightarrow> collected option" where
  "collect E n [] terms coeff order_factors = Some (Collected terms coeff order_factors)"
| "collect E 0 (o1 # seq) terms coeff order_factors = None"
| "collect E (Suc n) (o1 # seq) terms coeff order_factors =
     (if is_Order o1 then
        (if list_ex (\<lambda>o2. contains E o2 o1) order_factors
         then collect E n seq terms coeff order_factors
         else collect E n seq terms coeff
                (o1 # filter (\<lambda>o2. \<not> contains E o1 o2) order_factors))
      else if is_Number o1 then
        (if o1 = NaN \<or> (coeff = ComplexInfinity \<and> bounded E o1 = Some False)
         then Some Abort_NaN
         else if is_Number coeff then
           (if num_add coeff o1 = NaN then Some Abort_NaN
            else collect E n seq terms (num_add coeff o1) order_factors)
         else collect E n seq terms coeff order_factors)
      else if o1 = ComplexInfinity then
        (if bounded E coeff = Some False then Some Abort_NaN
         else collect E n seq terms ComplexInfinity order_factors)
      else if is_Add o1 then
        collect E n (seq @ args o1) terms coeff order_factors
      else if is_Mul o1 then
        (case as_coeff_Mul o1 of (c, s) \<Rightarrow>
           if is_Number c \<and> is_Add s
           then collect E n (seq @ map (mul E c) (args s)) terms coeff order_factors
           else collect E n seq (add_term s c terms) coeff order_factors)
      else if is_Pow o1 then
        (case as_base_exp o1 of (b, e) \<Rightarrow>
           if is_Number b \<and> (is_Integer e \<or> (is_Rational e \<and> is_negative e))
           then collect E n (seq @ [power E b e]) terms coeff order_factors
           else collect E n seq (add_term o1 One terms) coeff order_factors)
      else collect E n seq (add_term o1 One terms) coeff order_factors)"

subsection \<open>The canonicalizer (lines 150-233)\<close>

text \<open>The loop \<^verbatim>\<open>for s,c in terms.items()\<close> with its two accumulators.\<close>

fun rebuild ::
  "collaborators \<Rightarrow> (expr \<times> expr) list \<Rightarrow> expr list \<Rightarrow> bool \<Rightarrow> expr list \<times> bool" where
  "rebuild E [] newseq noncommutative = (newseq, noncommutative)"
| "rebuild E ((s, c) # ts) newseq noncommutative =
     (if c = Zero then rebuild E ts newseq noncommutative
      else rebuild E ts
             (newseq @ [if c = One then s
                        else if is_Mul s then Mul (c # args s)
                        else mul E c s])
             (noncommutative \<or> \<not> truthy (is_commutative E s)))"

definition dominated_pos :: "collaborators \<Rightarrow> expr \<Rightarrow> bool" where
  "dominated_pos E f =
     (truthy (is_nonnegative E f) \<or>
      (truthy (is_real E f) \<and>
       (truthy (bounded E f) \<or> truthy (is_finite E f) \<or> truthy (is_infinitesimal E f))))"

definition dominated_neg :: "collaborators \<Rightarrow> expr \<Rightarrow> bool" where
  "dominated_neg E f =
     (truthy (is_nonpositive E f) \<or>
      (truthy (is_real E f) \<and>
       (truthy (bounded E f) \<or> truthy (is_finite E f) \<or> truthy (is_infinitesimal E f))))"

definition dominated_zoo :: "collaborators \<Rightarrow> expr \<Rightarrow> bool" where
  "dominated_zoo E c = (truthy (bounded E c) \<and> is_real E c \<noteq> None)"

text \<open>Lines 175-196: what an infinite \<^verbatim>\<open>coeff\<close> removes from \<^verbatim>\<open>newseq\<close>.\<close>

definition prune :: "collaborators \<Rightarrow> expr \<Rightarrow> expr list \<Rightarrow> expr list" where
  "prune E coeff newseq =
     (let newseq1 =
        (if coeff = Infinity then filter (\<lambda>f. \<not> dominated_pos E f) newseq
         else if coeff = NegativeInfinity then filter (\<lambda>f. \<not> dominated_neg E f) newseq
         else newseq)
      in if coeff = ComplexInfinity then filter (\<lambda>c. \<not> dominated_zoo E c) newseq1
         else newseq1)"

text \<open>Lines 198-215: the Order entries absorb terms and, maybe, \<^verbatim>\<open>coeff\<close>.\<close>

definition absorb ::
  "collaborators \<Rightarrow> expr list \<Rightarrow> expr \<Rightarrow> expr list \<Rightarrow> expr list \<times> expr" where
  "absorb E order_factors coeff newseq =
     (if order_factors \<noteq> [] then
        (filter (\<lambda>t. \<not> list_ex (\<lambda>o1. contains E o1 t) order_factors) newseq @ order_factors,
         if list_ex (\<lambda>o1. contains E o1 coeff) order_factors then Zero else coeff)
      else (newseq, coeff))"

text \<open>
  Lines 150-233 as a whole. The result is the pair \<^verbatim>\<open>(commutative_part,
  noncommutative_part)\<close>; the third component of the Python tuple is always \<^verbatim>\<open>None\<close>.
\<close>

definition finish ::
  "collaborators \<Rightarrow> (expr \<times> expr) list \<Rightarrow> expr \<Rightarrow> expr list \<Rightarrow> expr list \<times> expr list" where
  "finish E terms coeff order_factors =
     (case rebuild E terms [] False of (newseq, noncommutative) \<Rightarrow>
      case absorb E order_factors coeff (prune E coeff newseq) of (newseq2, coeff2) \<Rightarrow>
      let sorted_seq = sort_key (hash E) newseq2;
          final = (if coeff2 \<noteq> Zero then coeff2 # sorted_seq else sorted_seq)
      in if noncommutative then ([], final) else (final, []))"

definition flatten_general ::
  "collaborators \<Rightarrow> nat \<Rightarrow> expr list \<Rightarrow> (expr list \<times> expr list) option" where
  "flatten_general E n seq =
     (case collect E n seq [] Zero [] of
        None \<Rightarrow> None
      | Some Abort_NaN \<Rightarrow> Some ([NaN], [])
      | Some (Collected terms coeff order_factors) \<Rightarrow>
          Some (finish E terms coeff order_factors))"

subsection \<open>The two-argument shortcut (lines 33-63) and the whole of flatten\<close>

text \<open>
  \<^verbatim>\<open>Inl\<close> is an exception, \<^verbatim>\<open>Inr None\<close> is \<^verbatim>\<open>rv = None\<close> (go on with the general
  path), \<^verbatim>\<open>Inr (Some rv)\<close> is \<^verbatim>\<open>return rv\<close>. \<^verbatim>\<open>bargs[0]\<close> of an empty list raises.
  \<open>expand_2arg\<close> is lines 40-50 (the unevaluated two-argument product is expanded),
  \<open>shortcut_rv\<close> lines 51-61, \<open>shortcut\<close> the frame around them.
\<close>

definition expand_2arg :: "collaborators \<Rightarrow> expr \<Rightarrow> error + expr" where
  "expand_2arg E b =
     (if is_Mul b then
        (case as_coeff_Mul b of (c, t) \<Rightarrow>
           if is_Add t then
             (case as_coeff_Add t of
                Inl err \<Rightarrow> Inl err
              | Inr (h, t1) \<Rightarrow>
                  let bargs = sort_key (hash E) (map (mul E c) (make_args t1));
                      ch = mul E c h
                  in Inr (Add_from_args (if nonzero ch then ch # bargs else bargs)))
           else Inr b)
      else Inr b)"

definition shortcut_rv :: "expr \<Rightarrow> expr \<Rightarrow> error + (expr list \<times> expr list) option" where
  "shortcut_rv a b =
     (if is_Add b then
        (case args b of
           [] \<Rightarrow> Inl IndexError
         | x # xs \<Rightarrow>
             if is_Number x then
               (if \<not> nonzero (num_add x a) then Inr (Some (xs, []))
                else Inr (Some (num_add x a # xs, [])))
             else Inr (Some (a # x # xs, [])))
      else if is_Mul b then Inr (Some ([a, b], []))
      else Inr None)"

definition shortcut ::
  "collaborators \<Rightarrow> expr list \<Rightarrow> error + (expr list \<times> expr list) option" where
  "shortcut E seq =
     (case seq of
        [a0, b0] \<Rightarrow>
          (case (if is_Rational b0 then (b0, a0) else (a0, b0)) of (a, b) \<Rightarrow>
           if \<not> nonzero a then Inl AssertionError
           else if is_Rational a \<and> q_of a \<noteq> 0 then
             (case expand_2arg E b of Inl err \<Rightarrow> Inl err | Inr b1 \<Rightarrow> shortcut_rv a b1)
           else Inr None)
      | _ \<Rightarrow> Inr None)"

definition flatten ::
  "collaborators \<Rightarrow> nat \<Rightarrow> expr list \<Rightarrow> (error + expr list \<times> expr list) option" where
  "flatten E n seq =
     (case shortcut E seq of
        Inl err \<Rightarrow> Some (Inl err)
      | Inr (Some rv) \<Rightarrow> Some (Inr rv)
      | Inr None \<Rightarrow> map_option Inr (flatten_general E n seq))"

subsection \<open>The loop body in four parts\<close>

text \<open>
  One iteration of the loop does four independent things: it updates the scalar (or aborts),
  appends to the work list, adds to \<^verbatim>\<open>terms\<close>, and updates the Order entries. The four
  functions below say what each iteration does to each of them; \<open>collect_step\<close> proves
  that \<open>collect\<close>, which follows the source line by line, is their composition.
\<close>

definition scalar_step :: "collaborators \<Rightarrow> expr \<Rightarrow> expr \<Rightarrow> expr option" where
  "scalar_step E coeff a =
     (if is_Number a then
        (if a = NaN \<or> (coeff = ComplexInfinity \<and> bounded E a = Some False) then None
         else if is_Number coeff then
           (if num_add coeff a = NaN then None else Some (num_add coeff a))
         else Some coeff)
      else if a = ComplexInfinity then
        (if bounded E coeff = Some False then None else Some ComplexInfinity)
      else Some coeff)"

definition numeric_power :: "expr \<Rightarrow> bool" where
  "numeric_power a =
     (case as_base_exp a of (b, e) \<Rightarrow>
        is_Number b \<and> (is_Integer e \<or> (is_Rational e \<and> is_negative e)))"

definition distributes :: "expr \<Rightarrow> bool" where
  "distributes a = (case as_coeff_Mul a of (c, s) \<Rightarrow> is_Number c \<and> is_Add s)"

definition spawn :: "collaborators \<Rightarrow> expr \<Rightarrow> expr list" where
  "spawn E a =
     (if is_Add a then args a
      else if is_Mul a \<and> distributes a then
        (case as_coeff_Mul a of (c, s) \<Rightarrow> map (mul E c) (args s))
      else if is_Pow a \<and> numeric_power a then
        (case as_base_exp a of (b, e) \<Rightarrow> [power E b e])
      else [])"

definition term_of :: "expr \<Rightarrow> (expr \<times> expr) option" where
  "term_of a =
     (if is_Order a \<or> is_Number a \<or> a = ComplexInfinity \<or> is_Add a then None
      else if is_Mul a then
        (if distributes a then None
         else (case as_coeff_Mul a of (c, s) \<Rightarrow> Some (s, c)))
      else if is_Pow a \<and> numeric_power a then None
      else Some (a, One))"

definition terms_step :: "expr \<Rightarrow> (expr \<times> expr) list \<Rightarrow> (expr \<times> expr) list" where
  "terms_step a terms = (case term_of a of None \<Rightarrow> terms | Some (s, c) \<Rightarrow> add_term s c terms)"

definition order_step :: "collaborators \<Rightarrow> expr \<Rightarrow> expr list \<Rightarrow> expr list" where
  "order_step E a order_factors =
     (if is_Order a \<and> \<not> list_ex (\<lambda>o2. contains E o2 a) order_factors
      then a # filter (\<lambda>o2. \<not> contains E a o2) order_factors
      else order_factors)"

text \<open>The scalar after a list of addends, one step each; \<^verbatim>\<open>None\<close> when a step aborts.\<close>

fun scalar_run :: "collaborators \<Rightarrow> expr \<Rightarrow> expr list \<Rightarrow> expr option" where
  "scalar_run E c [] = Some c"
| "scalar_run E c (a # as) =
     (case scalar_step E c a of None \<Rightarrow> None | Some c' \<Rightarrow> scalar_run E c' as)"

text \<open>
  Every addend the loop visits, in the order it visits them: the input, then what was spliced
  into the work list. The residual-coefficient pairs that reach \<^verbatim>\<open>terms\<close> are the
  \<open>term_of\<close> of these.
\<close>

fun worklist :: "collaborators \<Rightarrow> nat \<Rightarrow> expr list \<Rightarrow> expr list" where
  "worklist E n [] = []"
| "worklist E 0 (a # seq) = []"
| "worklist E (Suc n) (a # seq) = a # worklist E n (seq @ spawn E a)"

definition collected_pairs :: "collaborators \<Rightarrow> nat \<Rightarrow> expr list \<Rightarrow> (expr \<times> expr) list" where
  "collected_pairs E n seq = List.map_filter term_of (worklist E n seq)"

text \<open>The sum of a list of coefficients, left to right; no coefficient, no entry.\<close>

fun coefficient_sum :: "expr list \<Rightarrow> expr option" where
  "coefficient_sum [] = None"
| "coefficient_sum (c # cs) = Some (foldl num_add c cs)"

text \<open>What one entry of \<^verbatim>\<open>terms\<close> contributes to \<^verbatim>\<open>newseq\<close> (lines 155-171) and to the flag (line 173).\<close>

definition emit :: "collaborators \<Rightarrow> expr \<times> expr \<Rightarrow> expr list" where
  "emit E sc =
     (case sc of (s, c) \<Rightarrow>
        if c = Zero then []
        else if c = One then [s]
        else if is_Mul s then [Mul (c # args s)]
        else [mul E c s])"

definition flags_noncommutative :: "collaborators \<Rightarrow> expr \<times> expr \<Rightarrow> bool" where
  "flags_noncommutative E sc =
     (case sc of (s, c) \<Rightarrow> c \<noteq> Zero \<and> \<not> truthy (is_commutative E s))"

text \<open>
  The operands after the scalar slot, and the scalar slot, as lines 175-227 leave them: the
  rebuilt terms an infinite scalar did not remove and no Order entry contains, then the Order
  entries, all sorted by \<^verbatim>\<open>hash\<close>; the scalar unless it is zero or an Order entry
  contains it.
\<close>

definition body_of ::
  "collaborators \<Rightarrow> (expr \<times> expr) list \<Rightarrow> expr \<Rightarrow> expr list \<Rightarrow> expr list" where
  "body_of E terms coeff ofs =
     sort_key (hash E)
       (filter (\<lambda>t. \<not> list_ex (\<lambda>o1. contains E o1 t) ofs)
          (prune E coeff (concat (map (emit E) terms))) @ ofs)"

definition scalar_of :: "collaborators \<Rightarrow> expr \<Rightarrow> expr list \<Rightarrow> expr list" where
  "scalar_of E coeff ofs =
     (if coeff = Zero \<or> list_ex (\<lambda>o1. contains E o1 coeff) ofs then [] else [coeff])"

text \<open>No entry of a list of Order nodes contains another one.\<close>

fun non_dominated :: "collaborators \<Rightarrow> expr list \<Rightarrow> bool" where
  "non_dominated E [] = True"
| "non_dominated E (x # xs) =
     (list_all (\<lambda>y. \<not> contains E x y \<and> \<not> contains E y x) xs \<and> non_dominated E xs)"

text \<open>The values the scalar can take while the loop runs: a number other than NaN, or ComplexInfinity.\<close>

fun valid_scalar :: "expr \<Rightarrow> bool" where
  "valid_scalar (Rational r) = True"
| "valid_scalar Infinity = True"
| "valid_scalar NegativeInfinity = True"
| "valid_scalar ComplexInfinity = True"
| "valid_scalar e = False"

section \<open>Construction of a sum\<close>

text \<open>
  A function that can raise or run out of fuel returns a \<open>result\<close>: \<^verbatim>\<open>None\<close> is out of
  fuel, \<^verbatim>\<open>Some (Inl e)\<close> the exception \<open>e\<close>, \<^verbatim>\<open>Some (Inr v)\<close> the value \<open>v\<close>.
\<close>

type_synonym 'a result = "(error + 'a) option"

fun bind_result :: "'a result \<Rightarrow> ('a \<Rightarrow> 'b result) \<Rightarrow> 'b result" where
  "bind_result None f = None"
| "bind_result (Some (Inl e)) f = Some (Inl e)"
| "bind_result (Some (Inr v)) f = f v"

text \<open>The results of a list comprehension: the first failure, in order, or all the values.\<close>

fun all_results :: "'a result list \<Rightarrow> 'a list result" where
  "all_results [] = Some (Inr [])"
| "all_results (r # rs) =
     bind_result r (\<lambda>v. bind_result (all_results rs) (\<lambda>vs. Some (Inr (v # vs))))"

text \<open>
  Modelled from the spec: the construction layer \<^verbatim>\<open>Add(*args)\<close> (\<^verbatim>\<open>AssocOp.__new__\<close> of
  \<^verbatim>\<open>operations.py\<close>, which is not among the sources). The additive identity is left out
  of the arguments; no argument gives zero and a single one gives that argument; otherwise
  the arguments are flattened and "if flattening collapses to one, the caller returns that
  single operand directly, never a 1-operand Sum".
\<close>

definition Add_new :: "collaborators \<Rightarrow> nat \<Rightarrow> expr list \<Rightarrow> expr result" where
  "Add_new E n as =
     (case filter (\<lambda>a. a \<noteq> Zero) as of
        [] \<Rightarrow> Some (Inr Zero)
      | [a] \<Rightarrow> Some (Inr a)
      | as' \<Rightarrow>
          bind_result (flatten E n as')
            (\<lambda>parts. case parts of (c_part, nc_part) \<Rightarrow> Some (Inr (Add_from_args (c_part @ nc_part)))))"

text \<open>
  Modelled from the spec: the negative of a numeral (\<^verbatim>\<open>Number.__neg__\<close> of \<^verbatim>\<open>numbers.py\<close>).
\<close>

fun num_neg :: "expr \<Rightarrow> expr" where
  "num_neg (Rational r) = Rational (- r)"
| "num_neg Infinity = NegativeInfinity"
| "num_neg NegativeInfinity = Infinity"
| "num_neg e = e"

text \<open>
  The unary minus. \<^verbatim>\<open>Add.__neg__\<close> (line 671) is \<^verbatim>\<open>Add(*[-t for t in self.args])\<close>; on a
  number it is the negative number, on any other node the product \<^verbatim>\<open>(-1)*self\<close> of the
  collaborator.
\<close>

fun neg :: "collaborators \<Rightarrow> nat \<Rightarrow> expr \<Rightarrow> expr result" where
  "neg E n (Add xs) = bind_result (all_results (map (neg E n) xs)) (Add_new E n)"
| "neg E n e = Some (Inr (if is_Number e then num_neg e else mul E NegativeOne e))"

section \<open>Add._eval_subs (lines 469-496)\<close>

text \<open>
  \<^verbatim>\<open>Add.as_coeff_add\<close> without \<^verbatim>\<open>deps\<close> (lines 291-294). \<^verbatim>\<open>self.args[0].as_coeff_add()\<close>
  is this function again when the first operand is a sum, \<^verbatim>\<open>(self, ())\<close> on a number and
  \<^verbatim>\<open>(0, (self,))\<close> on any other node.
\<close>

fun as_coeff_add :: "expr \<Rightarrow> error + expr \<times> expr list" where
  "as_coeff_add (Add []) = Inl IndexError"
| "as_coeff_add (Add (a # rest)) =
     (case as_coeff_add a of
        Inl err \<Rightarrow> Inl err
      | Inr (coeff, notrat) \<Rightarrow>
          if coeff \<noteq> Zero then Inr (coeff, notrat @ rest) else Inr (Zero, a # rest))"
| "as_coeff_add e = (if is_Number e then Inr (e, []) else Inr (Zero, [e]))"

text \<open>
  Lines 475-482: both leading coefficients rational and the remainders equal, or one the
  negative of the other. \<^verbatim>\<open>Some v\<close> is \<^verbatim>\<open>return v\<close>, \<^verbatim>\<open>None\<close> falls through.
\<close>

definition subs_by_coefficient ::
  "collaborators \<Rightarrow> nat \<Rightarrow> expr \<Rightarrow> expr \<Rightarrow> expr \<Rightarrow> expr option result" where
  "subs_by_coefficient E n self old new =
     (case as_coeff_Add self of
        Inl err \<Rightarrow> Some (Inl err)
      | Inr (coeff_self, terms_self) \<Rightarrow>
     (case as_coeff_Add old of
        Inl err \<Rightarrow> Some (Inl err)
      | Inr (coeff_old, terms_old) \<Rightarrow>
          if is_Rational coeff_self \<and> is_Rational coeff_old then
            (if terms_self = terms_old then
               bind_result (neg E n coeff_old) (\<lambda>nc.
               bind_result (Add_new E n [new, coeff_self, nc]) (\<lambda>r. Some (Inr (Some r))))
             else
               bind_result (neg E n terms_old) (\<lambda>nt.
                 if terms_self = nt then
                   bind_result (neg E n new) (\<lambda>nn.
                   bind_result (Add_new E n [nn, coeff_self, coeff_old]) (\<lambda>r. Some (Inr (Some r))))
                 else Some (Inr None)))
          else Some (Inr None)))"

text \<open>
  Lines 484-494. The operands that are not numbers are compared as sets; a Python set has
  no duplicates and no defined order, the model keeps the order of \<^verbatim>\<open>terms_self\<close>.
  \<open>sub s old new\<close> is \<^verbatim>\<open>s._eval_subs(old, new)\<close> of an operand, a method of the operand's
  own class.
\<close>

definition subs_by_subset ::
  "collaborators \<Rightarrow> (expr \<Rightarrow> expr \<Rightarrow> expr \<Rightarrow> expr) \<Rightarrow> nat \<Rightarrow> expr \<Rightarrow> expr \<Rightarrow> expr
     \<Rightarrow> expr option result" where
  "subs_by_subset E sub n self old new =
     (if is_Add old then
        (case as_coeff_add self of
           Inl err \<Rightarrow> Some (Inl err)
         | Inr (coeff_self, terms_self) \<Rightarrow>
        (case as_coeff_add old of
           Inl err \<Rightarrow> Some (Inl err)
         | Inr (coeff_old, terms_old) \<Rightarrow>
             if length terms_old < length terms_self \<and> set terms_old \<subset> set terms_self then
               bind_result (neg E n coeff_old) (\<lambda>nc.
               bind_result
                 (Add_new E n
                    (new # coeff_self # nc
                       # map (\<lambda>s. sub s old new)
                           (filter (\<lambda>s. s \<notin> set terms_old) (remdups terms_self))))
                 (\<lambda>r. Some (Inr (Some r))))
             else Some (Inr None)))
      else Some (Inr None))"

text \<open>
  The method as a whole. \<^verbatim>\<open>old\<close> is an expression here, so the test
  \<^verbatim>\<open>isinstance(old, FunctionClass)\<close> of line 472 is false.
\<close>

definition eval_subs ::
  "collaborators \<Rightarrow> (expr \<Rightarrow> expr \<Rightarrow> expr \<Rightarrow> expr) \<Rightarrow> nat \<Rightarrow> expr \<Rightarrow> expr \<Rightarrow> expr
     \<Rightarrow> expr result" where
  "eval_subs E sub n self old new =
     (if self = old then Some (Inr new)
      else
        bind_result (subs_by_coefficient E n self old new) (\<lambda>r1.
          case r1 of
            Some v \<Rightarrow> Some (Inr v)
          | None \<Rightarrow>
              bind_result (subs_by_subset E sub n self old new) (\<lambda>r2.
                case r2 of
                  Some v \<Rightarrow> Some (Inr v)
                | None \<Rightarrow> Add_new E n (map (\<lambda>s. sub s old new) (args self)))))"

section \<open>Add.primitive (lines 680-757)\<close>

text \<open>
  Modelled from the spec: the constructor \<^verbatim>\<open>Rational(p, q)\<close> of \<^verbatim>\<open>numbers.py\<close>; a zero
  denominator gives an infinity by the sign of \<^verbatim>\<open>p\<close>, or NaN.
\<close>

definition mk_Rational :: "int \<Rightarrow> int \<Rightarrow> expr" where
  "mk_Rational p q =
     (if q = 0 then (if p = 0 then NaN else if 0 < p then Infinity else NegativeInfinity)
      else Rational (of_int p / of_int q))"

text \<open>Lines 716-722: the triple \<^verbatim>\<open>(c.p, c.q, m)\<close> of an operand.\<close>

definition term_triple :: "expr \<Rightarrow> int \<times> int \<times> expr" where
  "term_triple a =
     (case as_coeff_Mul a of (c, m) \<Rightarrow>
        if is_Rational c then (p_of c, q_of c, m) else (1, 1, a))"

text \<open>
  The method. \<^verbatim>\<open>reduce(igcd, ps, 0)\<close> and \<^verbatim>\<open>reduce(ilcm, qs, 1)\<close> are left folds of the
  nonnegative gcd and lcm; \<^verbatim>\<open>p//ngcd\<close> raises when \<^verbatim>\<open>ngcd\<close> is zero; \<^verbatim>\<open>terms[0]\<close>
  raises on an empty list; \<^verbatim>\<open>_keep_coeff(c, term)\<close> of \<^verbatim>\<open>mul.py\<close> is the product
  \<^verbatim>\<open>c*term\<close>, the collaborator \<open>mul\<close>.
\<close>

definition primitive :: "collaborators \<Rightarrow> expr \<Rightarrow> error + expr \<times> expr" where
  "primitive E self =
     (let terms = map term_triple (args self);
          inf = list_ex (\<lambda>(p, q, m). q = 0 \<or> m = ComplexInfinity) terms;
          chosen = (if \<not> inf then terms else filter (\<lambda>(p, q, m). q \<noteq> 0) terms);
          ngcd = foldl gcd 0 (map (\<lambda>(p, q, m). p) chosen);
          dlcm = foldl lcm 1 (map (\<lambda>(p, q, m). q) chosen)
      in if ngcd = 1 \<and> dlcm = 1 then Inr (One, self)
         else if ngcd = 0 \<and> list_ex (\<lambda>(p, q, m). q \<noteq> 0) terms then Inl ZeroDivisionError
         else
           (let terms1 =
              (if \<not> inf then
                 map (\<lambda>(p, q, term).
                        mul E (Rational (of_int ((p div ngcd) * (dlcm div q)))) term) terms
               else
                 map (\<lambda>(p, q, term).
                        if q \<noteq> 0
                        then mul E (Rational (of_int ((p div ngcd) * (dlcm div q)))) term
                        else mul E (mk_Rational p q) term) terms)
            in case terms1 of
                 [] \<Rightarrow> Inl IndexError
               | t0 # rest \<Rightarrow>
                   Inr (mk_Rational ngcd dlcm,
                        Add_from_args
                          (if is_Number t0 \<or> t0 = ComplexInfinity
                           then (if nonzero t0 then t0 # sort_key (hash E) rest
                                 else sort_key (hash E) rest)
                           else sort_key (hash E) (t0 # rest)))))"

text \<open>
  \<^verbatim>\<open>ngcd\<close> and \<^verbatim>\<open>dlcm\<close> of lines 725-726, for the operands \<open>xs\<close> of a sum none of
  which has a zero denominator or is ComplexInfinity.
\<close>

definition ngcd_of :: "expr list \<Rightarrow> int" where
  "ngcd_of xs = foldl gcd 0 (map (\<lambda>(p, q, m). p) (map term_triple xs))"

definition dlcm_of :: "expr list \<Rightarrow> int" where
  "dlcm_of xs = foldl lcm 1 (map (\<lambda>(p, q, m). q) (map term_triple xs))"

text \<open>The rational coefficient and the residual of an operand, as \<open>as_coeff_Mul\<close> splits it.\<close>

definition coeff_of :: "expr \<Rightarrow> rat" where
  "coeff_of a = (case fst (as_coeff_Mul a) of Rational r \<Rightarrow> r | _ \<Rightarrow> 0)"

definition residual_of :: "expr \<Rightarrow> expr" where
  "residual_of a = snd (as_coeff_Mul a)"

section \<open>Reference collaborators\<close>

text \<open>
  One concrete choice of the collaborators, used to run the functions on examples.

  Modelled from the spec: the canonical key. Python's \<^verbatim>\<open>hash\<close> of a node is a function of
  its structure and nothing more is known of it; this one adds up the structure.
\<close>

fun std_hash :: "expr \<Rightarrow> int" where
  "std_hash (Rational r) = fst (quotient_of r) + snd (quotient_of r)"
| "std_hash Infinity = 1000"
| "std_hash NegativeInfinity = 1001"
| "std_hash NaN = 1002"
| "std_hash ComplexInfinity = 1003"
| "std_hash (Symbol x as) = sum_list (map of_char x)"
| "std_hash (Add xs) = 1 + sum_list (map std_hash xs)"
| "std_hash (Mul xs) = 2 + sum_list (map std_hash xs)"
| "std_hash (Power b e) = 3 + std_hash b + std_hash e"
| "std_hash (Order e) = 4 + std_hash e"

text \<open>
  Modelled from the spec: the Order comparison protocol ("does A asymptotically dominate B"),
  for monomials in one symbol as that symbol tends to zero: \<^verbatim>\<open>O(x**n)\<close> contains \<^verbatim>\<open>c*x**m\<close>
  and \<^verbatim>\<open>O(x**m)\<close> when \<^verbatim>\<open>n \<le> m\<close>.
\<close>

fun degree :: "expr \<Rightarrow> (string \<times> rat) option" where
  "degree (Symbol x as) = Some (x, 1)"
| "degree (Power (Symbol x as) (Rational n)) = Some (x, n)"
| "degree (Mul [Rational c, t]) = degree t"
| "degree (Order e) = degree e"
| "degree e = None"

fun std_contains :: "expr \<Rightarrow> expr \<Rightarrow> bool" where
  "std_contains (Order e) t =
     (case (degree e, degree t) of
        (Some (x, n), Some (y, m)) \<Rightarrow> x = y \<and> n \<le> m
      | _ \<Rightarrow> False)"
| "std_contains e t = False"

text \<open>
  Modelled from the spec: the product of a numeral and a node ("builds Product nodes for
  coefficient reattachment"): numerals multiply, one is the identity, a numeral goes to the
  leading slot of a product.
\<close>

fun num_mul :: "expr \<Rightarrow> expr \<Rightarrow> expr" where
  "num_mul (Rational r) (Rational s) = Rational (r * s)"
| "num_mul (Rational r) Infinity =
     (if r > 0 then Infinity else if r < 0 then NegativeInfinity else NaN)"
| "num_mul (Rational r) NegativeInfinity =
     (if r > 0 then NegativeInfinity else if r < 0 then Infinity else NaN)"
| "num_mul (Rational r) ComplexInfinity = (if r = 0 then NaN else ComplexInfinity)"
| "num_mul Infinity (Rational r) =
     (if r > 0 then Infinity else if r < 0 then NegativeInfinity else NaN)"
| "num_mul NegativeInfinity (Rational r) =
     (if r > 0 then NegativeInfinity else if r < 0 then Infinity else NaN)"
| "num_mul Infinity Infinity = Infinity"
| "num_mul NegativeInfinity NegativeInfinity = Infinity"
| "num_mul Infinity NegativeInfinity = NegativeInfinity"
| "num_mul NegativeInfinity Infinity = NegativeInfinity"
| "num_mul Infinity ComplexInfinity = ComplexInfinity"
| "num_mul NegativeInfinity ComplexInfinity = ComplexInfinity"
| "num_mul a b = NaN"

fun std_mul :: "expr \<Rightarrow> expr \<Rightarrow> expr" where
  "std_mul c (Mul (x # xs)) =
     (if c = One then Mul (x # xs)
      else if is_Number x then
        (if num_mul c x = One then Mul_from_args xs else Mul (num_mul c x # xs))
      else Mul (c # x # xs))"
| "std_mul c a =
     (if is_Number a \<or> a = ComplexInfinity then num_mul c a
      else if c = One then a
      else Mul [c, a])"

text \<open>Modelled from the spec: an integer power of a rational is a rational.\<close>

fun std_power :: "expr \<Rightarrow> expr \<Rightarrow> expr" where
  "std_power (Rational r) (Rational k) =
     (if of_int \<lfloor>k\<rfloor> = k \<and> (r \<noteq> 0 \<or> 0 \<le> k) then Rational (power_int r \<lfloor>k\<rfloor>)
      else Power (Rational r) (Rational k))"
| "std_power b e = Power b e"

text \<open>
  The assumption queries: a symbol answers from the assumptions it carries (commutative unless
  it says otherwise), a rational is a bounded real number, a product commutes when all its
  factors do; everything else is unknown.
\<close>

fun ask :: "string \<Rightarrow> expr \<Rightarrow> bool option" where
  "ask k (Symbol x as) = map_of as k"
| "ask k (Rational r) =
     (if k = ''real'' \<or> k = ''bounded'' \<or> k = ''finite'' then Some True
      else if k = ''nonnegative'' then Some (0 \<le> r)
      else if k = ''nonpositive'' then Some (r \<le> 0)
      else None)"
| "ask k e = None"

fun std_commutative :: "expr \<Rightarrow> bool option" where
  "std_commutative (Symbol x as) =
     (case map_of as ''commutative'' of None \<Rightarrow> Some True | Some b \<Rightarrow> Some b)"
| "std_commutative (Mul xs) = Some (list_all (\<lambda>x. std_commutative x = Some True) xs)"
| "std_commutative (Power b e) = Some (std_commutative b = Some True \<and> std_commutative e = Some True)"
| "std_commutative e = Some True"

definition std :: collaborators where
  "std = \<lparr> hash = std_hash, contains = std_contains, mul = std_mul, power = std_power,
           is_commutative = std_commutative,
           is_nonnegative = ask ''nonnegative'', is_nonpositive = ask ''nonpositive'',
           is_real = ask ''real'', is_bounded = ask ''bounded'', is_finite = ask ''finite'',
           is_infinitesimal = ask ''infinitesimal'' \<rparr>"

section \<open>Basic facts\<close>

lemma quotient_of_denom_nonzero [simp]: "snd (quotient_of r) \<noteq> 0"
  using quotient_of_denom_pos [of r] by (cases "quotient_of r") auto

lemma q_of_Rational_pos: "0 < q_of (Rational r)"
  by (cases "quotient_of r") (simp add: quotient_of_denom_pos)

lemma q_of_Rational_nonzero [simp]: "q_of (Rational r) \<noteq> 0"
  using q_of_Rational_pos [of r] by simp

lemma bounded_numerals [simp]:
  "bounded E (Rational r) = Some True"
  "bounded E Infinity = Some False"
  "bounded E NegativeInfinity = Some False"
  "bounded E ComplexInfinity = Some False"
  "bounded E NaN = None"
  by (simp_all add: bounded_def)

lemma num_add_Rational [simp]:
  "num_add (Rational r) Infinity = Infinity"
  "num_add (Rational r) NegativeInfinity = NegativeInfinity"
  "num_add (Rational r) NaN = NaN"
  by simp_all

lemma collect_step:
  "collect E (Suc n) (a # seq) terms coeff ofs =
     (case scalar_step E coeff a of
        None \<Rightarrow> Some Abort_NaN
      | Some c \<Rightarrow> collect E n (seq @ spawn E a) (terms_step a terms) c (order_step E a ofs))"
  by (cases a)
     (auto simp: scalar_step_def spawn_def terms_step_def term_of_def order_step_def
        distributes_def numeric_power_def split: prod.splits)

declare collect.simps(3) [simp del]

lemma step_on_scalar [simp]:
  assumes "is_Number a \<or> a = ComplexInfinity"
  shows "spawn E a = []" "terms_step a terms = terms" "order_step E a ofs = ofs"
  using assms by (cases a; simp add: spawn_def terms_step_def term_of_def order_step_def)+

lemma scalar_step_NaN [simp]: "scalar_step E c NaN = None"
  by (simp add: scalar_step_def)

lemma scalar_step_valid:
  "valid_scalar c \<Longrightarrow> scalar_step E c a = Some c' \<Longrightarrow> valid_scalar c'"
  by (cases c; cases a) (auto simp: scalar_step_def split: if_splits)

lemma scalar_step_Infinity:
  "scalar_step E Infinity a = Some c' \<Longrightarrow> c' = Infinity \<and> a \<noteq> NegativeInfinity"
  by (cases a) (auto simp: scalar_step_def split: if_splits)

lemma scalar_step_NegativeInfinity:
  "scalar_step E NegativeInfinity a = Some c' \<Longrightarrow> c' = NegativeInfinity \<and> a \<noteq> Infinity"
  by (cases a) (auto simp: scalar_step_def split: if_splits)

lemma scalar_step_to_Infinity:
  "valid_scalar c \<Longrightarrow> scalar_step E c Infinity = Some c' \<Longrightarrow> c' = Infinity"
  by (cases c) (auto simp: scalar_step_def split: if_splits)

lemma scalar_step_to_NegativeInfinity:
  "valid_scalar c \<Longrightarrow> scalar_step E c NegativeInfinity = Some c' \<Longrightarrow> c' = NegativeInfinity"
  by (cases c) (auto simp: scalar_step_def split: if_splits)

section \<open>ComplexInfinity against the running scalar\<close>

text \<open>
  C6, as the code has it. The loop meets \<^verbatim>\<open>ComplexInfinity\<close> with the running scalar
  \<^verbatim>\<open>coeff\<close>: a rational scalar (bounded; the initial zero is one) is replaced by
  \<^verbatim>\<open>ComplexInfinity\<close> and the loop goes on; an unbounded scalar (\<^verbatim>\<open>Infinity\<close>,
  \<^verbatim>\<open>NegativeInfinity\<close> or an earlier \<^verbatim>\<open>ComplexInfinity\<close>) ends the run with NaN.
  The mirror case of line 87: with the scalar at \<^verbatim>\<open>ComplexInfinity\<close> an infinite number
  ends the run with NaN and a rational is skipped. An aborted run returns \<^verbatim>\<open>[NaN]\<close>.
\<close>

theorem ComplexInfinity_against_scalar:
  "collect E (Suc n) (ComplexInfinity # seq) terms (Rational r) ofs
     = collect E n seq terms ComplexInfinity ofs
   \<and> collect E (Suc n) (ComplexInfinity # seq) terms Infinity ofs = Some Abort_NaN
   \<and> collect E (Suc n) (ComplexInfinity # seq) terms NegativeInfinity ofs = Some Abort_NaN
   \<and> collect E (Suc n) (ComplexInfinity # seq) terms ComplexInfinity ofs = Some Abort_NaN
   \<and> collect E (Suc n) (Infinity # seq) terms ComplexInfinity ofs = Some Abort_NaN
   \<and> collect E (Suc n) (NegativeInfinity # seq) terms ComplexInfinity ofs = Some Abort_NaN
   \<and> collect E (Suc n) (Rational r # seq) terms ComplexInfinity ofs
     = collect E n seq terms ComplexInfinity ofs
   \<and> (collect E n seq [] Zero [] = Some Abort_NaN
        \<and> flatten_general E n seq = Some ([NaN], [])
      \<or> collect E n seq [] Zero [] \<noteq> Some Abort_NaN)"
  by (auto simp: flatten_general_def collect_step scalar_step_def)

text \<open>
  The claim as the spec words it fails: with the bounded numeral 3 as running scalar,
  \<^verbatim>\<open>ComplexInfinity\<close> does not give NaN.
\<close>

theorem bounded_scalar_then_ComplexInfinity_counterexample:
  "flatten std 2 [Rational 3, ComplexInfinity] = Some (Inr ([ComplexInfinity], []))"
  by (simp add: flatten_def shortcut_def shortcut_rv_def expand_2arg_def flatten_general_def
        finish_def prune_def absorb_def collect_step scalar_step_def spawn_def terms_step_def
        term_of_def order_step_def numeral_2_eq_2 std_def)

section \<open>The shortcut against the general path\<close>

text \<open>
  C10 at the input \<^verbatim>\<open>[1/2, zoo + x]\<close>. The shortcut looks for a \<^verbatim>\<open>Number\<close> in slot 0 of
  the inner sum; \<^verbatim>\<open>ComplexInfinity\<close> is none, so \<^verbatim>\<open>1/2\<close> is put in front of it. The general
  path lets \<^verbatim>\<open>ComplexInfinity\<close> take the place of the scalar \<^verbatim>\<open>1/2\<close>.
\<close>

theorem shortcut_keeps_scalar_before_ComplexInfinity:
  "flatten std 4 [Rational (1/2), Add [ComplexInfinity, Symbol ''x'' []]]
     = Some (Inr ([Rational (1/2), ComplexInfinity, Symbol ''x'' []], []))
   \<and> flatten_general std 4 [Rational (1/2), Add [ComplexInfinity, Symbol ''x'' []]]
     = Some ([ComplexInfinity, Symbol ''x'' []], [])"
  by (simp add: flatten_def shortcut_def shortcut_rv_def expand_2arg_def flatten_general_def
        finish_def prune_def absorb_def dominated_zoo_def collect_step scalar_step_def spawn_def
        terms_step_def term_of_def order_step_def eval_nat_numeral std_def)

section \<open>NaN absorption\<close>

lemma collect_prefix_abort:
  "scalar_run E coeff pre = None \<Longrightarrow> length pre \<le> n \<Longrightarrow>
   collect E n (pre @ post) terms coeff ofs = Some Abort_NaN"
proof (induction pre arbitrary: n post terms coeff ofs)
  case Nil
  then show ?case by simp
next
  case (Cons a pre)
  then obtain m where n: "n = Suc m" and m: "length pre \<le> m" by (cases n) auto
  show ?case
  proof (cases "scalar_step E coeff a")
    case None
    then show ?thesis by (simp add: n collect_step)
  next
    case (Some c)
    with Cons.prems(1) have "scalar_run E c pre = None" by simp
    from Cons.IH [OF this m] Some show ?thesis by (simp add: n collect_step)
  qed
qed

lemma scalar_run_NaN: "NaN \<in> set as \<Longrightarrow> scalar_run E c as = None"
  by (induction as arbitrary: c) (auto split: option.splits)

lemma scalar_run_Infinity_stuck:
  "NegativeInfinity \<in> set as \<Longrightarrow> scalar_run E Infinity as = None"
  by (induction as) (auto split: option.splits dest: scalar_step_Infinity)

lemma scalar_run_NegativeInfinity_stuck:
  "Infinity \<in> set as \<Longrightarrow> scalar_run E NegativeInfinity as = None"
  by (induction as) (auto split: option.splits dest: scalar_step_NegativeInfinity)

lemma scalar_run_both_infinities:
  "Infinity \<in> set as \<Longrightarrow> NegativeInfinity \<in> set as \<Longrightarrow> valid_scalar c \<Longrightarrow>
   scalar_run E c as = None"
proof (induction as arbitrary: c)
  case Nil
  then show ?case by simp
next
  case (Cons a as)
  show ?case
  proof (cases "scalar_step E c a")
    case None
    then show ?thesis by simp
  next
    case (Some c')
    have v: "valid_scalar c'" using scalar_step_valid [OF Cons.prems(3) Some] .
    consider "a = Infinity" | "a = NegativeInfinity"
      | "Infinity \<in> set as" "NegativeInfinity \<in> set as"
      using Cons.prems(1,2) by auto
    then show ?thesis
    proof cases
      case 1
      with Some Cons.prems have "c' = Infinity" "NegativeInfinity \<in> set as"
        using scalar_step_to_Infinity by auto
      with Some show ?thesis by (simp add: scalar_run_Infinity_stuck)
    next
      case 2
      with Some Cons.prems have "c' = NegativeInfinity" "Infinity \<in> set as"
        using scalar_step_to_NegativeInfinity by auto
      with Some show ?thesis by (simp add: scalar_run_NegativeInfinity_stuck)
    next
      case 3
      with Cons.IH [OF 3 v] Some show ?thesis by simp
    qed
  qed
qed

lemma shortcut_with_NaN:
  assumes "NaN \<in> set seq" "seq \<noteq> [NaN, Zero]"
  shows "shortcut E seq = Inr None"
proof (cases "\<exists>a0 b0. seq = [a0, b0]")
  case True
  then obtain a0 b0 where s: "seq = [a0, b0]" by blast
  show ?thesis
  proof (cases "b0 = NaN")
    case True
    then show ?thesis by (simp add: s shortcut_def)
  next
    case False
    with assms s have a0: "a0 = NaN" and b0: "b0 \<noteq> Zero" by auto
    have nz: "nonzero b0" using b0 by (cases b0) auto
    have "expand_2arg E NaN = Inr NaN" by (simp add: expand_2arg_def)
    moreover have "shortcut_rv b0 NaN = Inr None" by (simp add: shortcut_rv_def)
    ultimately show ?thesis using nz by (simp add: s a0 shortcut_def)
  qed
next
  case False
  then show ?thesis by (auto simp: shortcut_def split: list.splits)
qed

lemma shortcut_with_both_infinities:
  assumes "Infinity \<in> set seq" "NegativeInfinity \<in> set seq"
  shows "shortcut E seq = Inr None"
proof (cases "\<exists>a0 b0. seq = [a0, b0]")
  case True
  then obtain a0 b0 where s: "seq = [a0, b0]" by blast
  with assms have "a0 = Infinity \<and> b0 = NegativeInfinity \<or> a0 = NegativeInfinity \<and> b0 = Infinity"
    by auto
  then show ?thesis unfolding s by (auto simp: shortcut_def)
next
  case False
  then show ?thesis by (auto simp: shortcut_def split: list.splits)
qed

text \<open>
  C3, as the code has it. For every input sequence other than \<^verbatim>\<open>[NaN, 0]\<close>: when NaN is
  one of the addends, or both \<^verbatim>\<open>Infinity\<close> and \<^verbatim>\<open>NegativeInfinity\<close> are, \<^verbatim>\<open>flatten\<close>
  returns \<^verbatim>\<open>[NaN]\<close> as an ordinary result, and one unit of fuel per addend is enough for
  it (the addends spliced into the work list are never reached). In the loop, a numeral
  that takes the numeric scalar to NaN ends the run at once.
\<close>

theorem NaN_absorbs:
  "(seq \<noteq> [NaN, Zero] \<and> length seq \<le> n
      \<and> (NaN \<in> set seq \<or> Infinity \<in> set seq \<and> NegativeInfinity \<in> set seq)
     \<longrightarrow> flatten E n seq = Some (Inr ([NaN], [])))
   \<and> (is_Number a \<and> is_Number coeff \<and> num_add coeff a = NaN
     \<longrightarrow> collect E (Suc m) (a # rest) terms coeff ofs = Some Abort_NaN)"
proof (intro conjI impI)
  assume H: "seq \<noteq> [NaN, Zero] \<and> length seq \<le> n
      \<and> (NaN \<in> set seq \<or> Infinity \<in> set seq \<and> NegativeInfinity \<in> set seq)"
  then have sc: "shortcut E seq = Inr None"
    using shortcut_with_NaN shortcut_with_both_infinities by blast
  from H have "scalar_run E Zero seq = None"
    using scalar_run_NaN scalar_run_both_infinities [of seq Zero] by auto
  with H have "collect E n (seq @ []) [] Zero [] = Some Abort_NaN"
    by (intro collect_prefix_abort) auto
  with sc show "flatten E n seq = Some (Inr ([NaN], []))"
    by (simp add: flatten_def flatten_general_def)
next
  assume "is_Number a \<and> is_Number coeff \<and> num_add coeff a = NaN"
  then show "collect E (Suc m) (a # rest) terms coeff ofs = Some Abort_NaN"
    by (auto simp: collect_step scalar_step_def)
qed

theorem NaN_absorbs_witness:
  "flatten std 3 [Symbol ''x'' [], NaN, One] = Some (Inr ([NaN], []))
   \<and> flatten std 2 [Infinity, NegativeInfinity] = Some (Inr ([NaN], []))
   \<and> collect std 1 [NegativeInfinity] [] Infinity [] = Some Abort_NaN"
  using NaN_absorbs [of "[Symbol ''x'' [], NaN, One]" 3 std NegativeInfinity Infinity 0 "[]" "[]" "[]"]
    NaN_absorbs [of "[Infinity, NegativeInfinity]" 2 std NegativeInfinity Infinity 0 "[]" "[]" "[]"]
  by (simp add: eval_nat_numeral)

text \<open>
  The claim as the spec words it ("for every input sequence", "never thrown") fails on
  \<^verbatim>\<open>[NaN, 0]\<close>: the shortcut swaps the rational \<^verbatim>\<open>0\<close> to the front and \<^verbatim>\<open>assert a\<close>
  raises before the loop sees NaN.
\<close>

theorem NaN_with_zero_raises_counterexample:
  "flatten std 2 [NaN, Zero] = Some (Inl AssertionError)"
  by (simp add: flatten_def shortcut_def)

section \<open>The canonicalizer and the loop, in closed form\<close>

lemma rebuild_eq:
  "rebuild E ts acc nc
     = (acc @ concat (map (emit E) ts), nc \<or> list_ex (flags_noncommutative E) ts)"
  by (induction ts arbitrary: acc nc)
     (auto simp: emit_def flags_noncommutative_def)

lemma absorb_eq:
  "absorb E ofs coeff newseq =
     (filter (\<lambda>t. \<not> list_ex (\<lambda>o1. contains E o1 t) ofs) newseq @ ofs,
      if list_ex (\<lambda>o1. contains E o1 coeff) ofs then Zero else coeff)"
  by (cases ofs) (simp_all add: absorb_def)

lemma finish_eq:
  "finish E terms coeff ofs =
     (if list_ex (flags_noncommutative E) terms
      then ([], scalar_of E coeff ofs @ body_of E terms coeff ofs)
      else (scalar_of E coeff ofs @ body_of E terms coeff ofs, []))"
  by (simp add: finish_def rebuild_eq absorb_eq body_of_def scalar_of_def Let_def)

lemma flatten_general_path:
  assumes "shortcut E seq = Inr None"
    and "collect E n seq [] Zero [] = Some (Collected terms coeff ofs)"
  shows "flatten E n seq = Some (Inr (finish E terms coeff ofs))"
  using assms by (simp add: flatten_def flatten_general_def)

lemma collect_worklist:
  "collect E n seq terms coeff ofs = Some (Collected terms' coeff' ofs') \<Longrightarrow>
     terms' = foldl (\<lambda>t a. terms_step a t) terms (worklist E n seq)
   \<and> ofs' = foldl (\<lambda>os a. order_step E a os) ofs (worklist E n seq)
   \<and> scalar_run E coeff (worklist E n seq) = Some coeff'"
proof (induction E n seq arbitrary: terms coeff ofs rule: worklist.induct)
  case (1 E n)
  then show ?case by simp
next
  case (2 E a seq)
  then show ?case by simp
next
  case (3 E n a seq)
  from "3.prems" obtain c where c: "scalar_step E coeff a = Some c"
    and r: "collect E n (seq @ spawn E a) (terms_step a terms) c (order_step E a ofs)
              = Some (Collected terms' coeff' ofs')"
    by (auto simp: collect_step split: option.splits)
  from "3.IH" [OF r] c show ?case by simp
qed

lemmas run_defs =
  flatten_def flatten_general_def shortcut_def shortcut_rv_def expand_2arg_def
  collect_step scalar_step_def spawn_def terms_step_def term_of_def order_step_def
  distributes_def numeric_power_def finish_def prune_def absorb_def
  dominated_pos_def dominated_neg_def dominated_zoo_def bounded_def std_def eval_nat_numeral

section \<open>Like terms\<close>

lemma add_term_keys: "map fst (add_term s c ts) = (if s \<in> fst ` set ts then map fst ts else map fst ts @ [s])"
  by (induction ts) force+

lemma add_term_distinct: "distinct (map fst ts) \<Longrightarrow> distinct (map fst (add_term s c ts))"
  by (simp add: add_term_keys)

lemma add_term_map_of:
  "map_of (add_term s c ts) k =
     (if k = s then Some (case map_of ts s of None \<Rightarrow> c | Some v \<Rightarrow> num_add v c)
      else map_of ts k)"
  by (induction ts) auto

lemma coefficient_sum_snoc:
  "coefficient_sum (cs @ [c]) = Some (case coefficient_sum cs of None \<Rightarrow> c | Some v \<Rightarrow> num_add v c)"
  by (cases cs) simp_all

lemma terms_run_map_filter:
  "foldl (\<lambda>t a. terms_step a t) ts xs
     = foldl (\<lambda>t sc. add_term (fst sc) (snd sc) t) ts (List.map_filter term_of xs)"
  by (induction xs arbitrary: ts)
     (auto simp: terms_step_def List.map_filter_simps split: option.splits)

lemma merged_pairs:
  "distinct (map fst (foldl (\<lambda>t sc. add_term (fst sc) (snd sc) t) [] ps))
   \<and> map_of (foldl (\<lambda>t sc. add_term (fst sc) (snd sc) t) [] ps) k
       = coefficient_sum (map snd (filter (\<lambda>sc. fst sc = k) ps))"
proof (induction ps rule: rev_induct)
  case Nil
  then show ?case by simp
next
  case (snoc p ps)
  then show ?case
    by (cases p) (auto simp: add_term_distinct add_term_map_of coefficient_sum_snoc)
qed

text \<open>
  C2. When the collector ends, no two entries of \<^verbatim>\<open>terms\<close> have the same residual term,
  and the coefficient of a residual \<open>s\<close> is the sum, in the order of the visit, of the
  coefficients of all visited addends whose residual is \<open>s\<close> (\<open>collected_pairs\<close>: the
  addends of the input and those spliced in from nested sums and distributed products). The
  canonicalizer then emits, entry by entry: nothing for the coefficient zero, the bare term
  for the coefficient one, the product with the coefficient in the leading slot when the
  term is a product, and otherwise the product the collaborator \<^verbatim>\<open>Mul(c, s)\<close> builds.
\<close>

theorem like_terms_merge:
  assumes "collect E n seq [] Zero [] = Some (Collected terms coeff ofs)"
  shows "distinct (map fst terms)
       \<and> (\<forall>s. map_of terms s
               = coefficient_sum (map snd (filter (\<lambda>sc. fst sc = s) (collected_pairs E n seq))))
       \<and> fst (rebuild E terms [] False) = concat (map (emit E) terms)
       \<and> emit E (s, Zero) = []
       \<and> emit E (s, One) = [s]
       \<and> (c \<noteq> Zero \<and> c \<noteq> One \<and> is_Mul s \<longrightarrow> emit E (s, c) = [Mul (c # args s)])
       \<and> (c \<noteq> Zero \<and> c \<noteq> One \<and> \<not> is_Mul s \<longrightarrow> emit E (s, c) = [mul E c s])"
proof -
  from collect_worklist [OF assms]
  have t: "terms = foldl (\<lambda>t sc. add_term (fst sc) (snd sc) t) [] (collected_pairs E n seq)"
    by (simp add: terms_run_map_filter collected_pairs_def)
  show ?thesis
    unfolding t using merged_pairs [of "collected_pairs E n seq"]
    by (simp add: rebuild_eq emit_def)
qed

theorem like_terms_merge_witness:
  "collect std 3 [Mul [Rational 2, Power (Symbol ''x'' []) (Rational 2)],
                  Mul [Rational 3, Power (Symbol ''x'' []) (Rational 2)], Symbol ''y'' []] [] Zero []
     = Some (Collected [(Power (Symbol ''x'' []) (Rational 2), Rational 5), (Symbol ''y'' [], One)]
               Zero [])
   \<and> flatten std 3 [Mul [Rational 2, Power (Symbol ''x'' []) (Rational 2)],
                    Mul [Rational 3, Power (Symbol ''x'' []) (Rational 2)], Symbol ''y'' []]
     = Some (Inr ([Symbol ''y'' [], Mul [Rational 5, Power (Symbol ''x'' []) (Rational 2)]], []))
   \<and> emit std (Mul [Symbol ''x'' [], Symbol ''y'' []], Rational 5)
     = [Mul [Rational 5, Symbol ''x'' [], Symbol ''y'' []]]
   \<and> emit std (Symbol ''x'' [], Rational 5) = [Mul [Rational 5, Symbol ''x'' []]]"
  using like_terms_merge [of std 3 "[Mul [Rational 2, Power (Symbol ''x'' []) (Rational 2)],
                  Mul [Rational 3, Power (Symbol ''x'' []) (Rational 2)], Symbol ''y'' []]"
       "[(Power (Symbol ''x'' []) (Rational 2), Rational 5), (Symbol ''y'' [], One)]" Zero "[]"
       "Rational 5" "Mul [Symbol ''x'' [], Symbol ''y'' []]"]
    like_terms_merge [of std 3 "[Mul [Rational 2, Power (Symbol ''x'' []) (Rational 2)],
                  Mul [Rational 3, Power (Symbol ''x'' []) (Rational 2)], Symbol ''y'' []]"
       "[(Power (Symbol ''x'' []) (Rational 2), Rational 5), (Symbol ''y'' [], One)]" Zero "[]"
       "Rational 5" "Symbol ''x'' []"]
  by (simp add: run_defs emit_def)

section \<open>Non-commutative terms\<close>

text \<open>
  C4, as the code has it. When an entry of \<^verbatim>\<open>terms\<close> with a coefficient other than zero
  has a term that is not known to commute, the whole operand sequence is returned as the
  non-commutative part, otherwise as the commutative part. In both cases the operands after
  the scalar slot are sorted by \<^verbatim>\<open>hash\<close> (line 223 runs before the flag is looked at), so
  the input order is not kept.
\<close>

theorem noncommutative_flag_and_sorting:
  assumes "shortcut E seq = Inr None"
    and "collect E n seq [] Zero [] = Some (Collected terms coeff ofs)"
  shows "\<exists>scalar body.
           flatten E n seq
             = Some (Inr (if list_ex (flags_noncommutative E) terms
                          then ([], scalar @ body) else (scalar @ body, [])))
           \<and> sorted (map (hash E) body)
           \<and> (scalar = [] \<or> scalar = [coeff])
           \<and> set body \<subseteq> set (concat (map (emit E) terms)) \<union> set ofs"
proof -
  let ?scalar = "scalar_of E coeff ofs" and ?body = "body_of E terms coeff ofs"
  have "flatten E n seq
          = Some (Inr (if list_ex (flags_noncommutative E) terms
                       then ([], ?scalar @ ?body) else (?scalar @ ?body, [])))"
    using flatten_general_path [OF assms] by (simp add: finish_eq)
  moreover have "sorted (map (hash E) ?body)"
    by (simp add: body_of_def sorted_sort_key)
  moreover have "?scalar = [] \<or> ?scalar = [coeff]"
    by (simp add: scalar_of_def)
  moreover have "set ?body \<subseteq> set (concat (map (emit E) terms)) \<union> set ofs"
    by (auto simp: body_of_def prune_def Let_def split: if_splits)
  ultimately show ?thesis by blast
qed

theorem noncommutative_flag_and_sorting_witness:
  "shortcut std [Symbol ''b'' [(''commutative'', False)], Symbol ''a'' []] = Inr None
   \<and> collect std 2 [Symbol ''b'' [(''commutative'', False)], Symbol ''a'' []] [] Zero []
       = Some (Collected [(Symbol ''b'' [(''commutative'', False)], One), (Symbol ''a'' [], One)] Zero [])
   \<and> flatten std 2 [Symbol ''b'' [(''commutative'', False)], Symbol ''a'' []]
       = Some (Inr ([], [Symbol ''a'' [], Symbol ''b'' [(''commutative'', False)]]))"
  using noncommutative_flag_and_sorting [of std "[Symbol ''b'' [(''commutative'', False)], Symbol ''a'' []]" 2
     "[(Symbol ''b'' [(''commutative'', False)], One), (Symbol ''a'' [], One)]" Zero "[]"]
  by (simp add: run_defs)

text \<open>
  The claim as the spec words it fails: two non-commutative symbols given as \<^verbatim>\<open>b, a\<close> come
  out as \<^verbatim>\<open>a, b\<close>.
\<close>

theorem noncommutative_order_counterexample:
  "flatten std 2 [Symbol ''b'' [(''commutative'', False)], Symbol ''a'' [(''commutative'', False)]]
     = Some (Inr ([], [Symbol ''a'' [(''commutative'', False)], Symbol ''b'' [(''commutative'', False)]]))"
  by (simp add: run_defs)

section \<open>Infinity dominance\<close>

text \<open>
  C5. When the collector ends with the scalar \<^verbatim>\<open>coeff\<close>, every operand of the result is
  the scalar, an Order entry, or a rebuilt term; and such a term is not known nonnegative,
  nor known real and bounded, finite or infinitesimal, when the scalar is \<^verbatim>\<open>Infinity\<close>;
  the same with nonpositive when the scalar is \<^verbatim>\<open>NegativeInfinity\<close>; and it is not known
  bounded and real when the scalar is \<^verbatim>\<open>ComplexInfinity\<close>. The collector runs whenever
  the two-argument shortcut does not return.
\<close>

theorem infinity_dominance:
  assumes "shortcut E seq = Inr None"
    and "collect E n seq [] Zero [] = Some (Collected terms coeff ofs)"
  shows "\<exists>cs ncs.
           flatten E n seq = Some (Inr (cs, ncs))
           \<and> (\<forall>f \<in> set (cs @ ncs).
                 f = coeff \<or> f \<in> set ofs
                 \<or> (f \<in> set (concat (map (emit E) terms))
                    \<and> (coeff = Infinity \<longrightarrow>
                         \<not> (truthy (is_nonnegative E f)
                            \<or> truthy (is_real E f)
                              \<and> (truthy (bounded E f) \<or> truthy (is_finite E f)
                                 \<or> truthy (is_infinitesimal E f))))
                    \<and> (coeff = NegativeInfinity \<longrightarrow>
                         \<not> (truthy (is_nonpositive E f)
                            \<or> truthy (is_real E f)
                              \<and> (truthy (bounded E f) \<or> truthy (is_finite E f)
                                 \<or> truthy (is_infinitesimal E f))))
                    \<and> (coeff = ComplexInfinity \<longrightarrow>
                         \<not> (truthy (bounded E f) \<and> truthy (is_real E f)))))"
proof -
  let ?scalar = "scalar_of E coeff ofs" and ?body = "body_of E terms coeff ofs"
  let ?new = "concat (map (emit E) terms)"
  have fl: "flatten E n seq
          = Some (Inr (if list_ex (flags_noncommutative E) terms
                       then ([], ?scalar @ ?body) else (?scalar @ ?body, [])))"
    using flatten_general_path [OF assms] by (simp add: finish_eq)
  have sc: "set ?scalar \<subseteq> {coeff}" by (simp add: scalar_of_def)
  have bd: "set ?body \<subseteq> set (prune E coeff ?new) \<union> set ofs"
    by (auto simp: body_of_def)
  have pr: "f \<in> set ?new
            \<and> (coeff = Infinity \<longrightarrow> \<not> dominated_pos E f)
            \<and> (coeff = NegativeInfinity \<longrightarrow> \<not> dominated_neg E f)
            \<and> (coeff = ComplexInfinity \<longrightarrow> \<not> dominated_zoo E f)"
    if "f \<in> set (prune E coeff ?new)" for f
    using that by (auto simp: prune_def Let_def split: if_splits)
  have zoo: "\<not> (truthy (bounded E f) \<and> truthy (is_real E f))" if "\<not> dominated_zoo E f" for f
    using that by (cases "is_real E f") (auto simp: dominated_zoo_def)
  have all: "f = coeff \<or> f \<in> set ofs
      \<or> (f \<in> set ?new
          \<and> (coeff = Infinity \<longrightarrow> \<not> dominated_pos E f)
          \<and> (coeff = NegativeInfinity \<longrightarrow> \<not> dominated_neg E f)
          \<and> (coeff = ComplexInfinity \<longrightarrow> \<not> (truthy (bounded E f) \<and> truthy (is_real E f))))"
    if "f \<in> set (?scalar @ ?body)" for f
    using that sc bd pr [of f] zoo [of f] by auto
  show ?thesis
  proof (cases "list_ex (flags_noncommutative E) terms")
    case True
    with fl all show ?thesis
      by (intro exI [of _ "[]"] exI [of _ "?scalar @ ?body"])
         (simp add: dominated_pos_def dominated_neg_def)
  next
    case False
    with fl all show ?thesis
      by (intro exI [of _ "?scalar @ ?body"] exI [of _ "[]"])
         (simp add: dominated_pos_def dominated_neg_def)
  qed
qed

theorem infinity_dominance_witness:
  "shortcut std [Infinity, Symbol ''x'' [(''real'', True), (''bounded'', True)]] = Inr None
   \<and> collect std 2 [Infinity, Symbol ''x'' [(''real'', True), (''bounded'', True)]] [] Zero []
       = Some (Collected [(Symbol ''x'' [(''real'', True), (''bounded'', True)], One)] Infinity [])
   \<and> flatten std 2 [Infinity, Symbol ''x'' [(''real'', True), (''bounded'', True)]]
       = Some (Inr ([Infinity], []))"
  using infinity_dominance [of std "[Infinity, Symbol ''x'' [(''real'', True), (''bounded'', True)]]" 2
     "[(Symbol ''x'' [(''real'', True), (''bounded'', True)], One)]" Infinity "[]"]
  by (simp add: run_defs)

section \<open>Order terms\<close>

lemma non_dominated_filter: "non_dominated E xs \<Longrightarrow> non_dominated E (filter P xs)"
  by (induction xs) (auto simp: list_all_iff)

lemma order_step_non_dominated:
  "non_dominated E ofs \<Longrightarrow> non_dominated E (order_step E a ofs)"
  by (auto simp: order_step_def non_dominated_filter list_all_iff list_ex_iff)

lemma order_step_subset: "set (order_step E a ofs) \<subseteq> set ofs \<union> (if is_Order a then {a} else {})"
  by (auto simp: order_step_def)

lemma order_run_non_dominated:
  "non_dominated E ofs \<Longrightarrow> non_dominated E (foldl (\<lambda>os a. order_step E a os) ofs xs)"
  by (induction xs arbitrary: ofs) (simp_all add: order_step_non_dominated)

lemma order_run_subset:
  "set (foldl (\<lambda>os a. order_step E a os) ofs xs) \<subseteq> set ofs \<union> set (filter is_Order xs)"
proof (induction xs arbitrary: ofs)
  case Nil
  then show ?case by simp
next
  case (Cons a xs)
  from Cons.IH [of "order_step E a ofs"] order_step_subset [of E a ofs]
  show ?case by (auto split: if_splits)
qed

lemma step_on_Order [simp]:
  assumes "is_Order a"
  shows "scalar_step E c a = Some c" "spawn E a = []" "terms_step a terms = terms"
  using assms by (cases a; simp add: scalar_step_def spawn_def terms_step_def term_of_def)+

text \<open>
  C7, as the code has it. The loop drops an Order addend that an entry contains and otherwise
  puts it in front of the entries it does not contain; so when the collector ends no entry
  contains another one, and every entry is an Order addend the loop visited. The result is:
  the scalar, unless it is zero or an entry contains it; then the rebuilt terms that the
  scalar did not remove and that no entry contains, together with the entries, all of them
  sorted by \<^verbatim>\<open>hash\<close>. The entries are appended to the terms before the sort (line 210,
  then line 223), so they need not be at the tail.
\<close>

theorem Order_absorption:
  assumes "shortcut E seq = Inr None"
    and "collect E n seq [] Zero [] = Some (Collected terms coeff ofs)"
  shows "non_dominated E ofs
       \<and> set ofs \<subseteq> set (filter is_Order (worklist E n seq))
       \<and> flatten E n seq
           = Some (Inr
               (let scalar = (if coeff = Zero \<or> list_ex (\<lambda>o1. contains E o1 coeff) ofs
                              then [] else [coeff]);
                    kept = filter (\<lambda>t. \<not> list_ex (\<lambda>o1. contains E o1 t) ofs)
                             (prune E coeff (concat (map (emit E) terms)));
                    body = sort_key (hash E) (kept @ ofs)
                in if list_ex (flags_noncommutative E) terms
                   then ([], scalar @ body) else (scalar @ body, [])))
       \<and> (is_Order a \<and> list_ex (\<lambda>o1. contains E o1 a) ofs0
            \<longrightarrow> collect E (Suc m) (a # rest) ts c ofs0 = collect E m rest ts c ofs0)
       \<and> (is_Order a \<and> \<not> list_ex (\<lambda>o1. contains E o1 a) ofs0
            \<longrightarrow> collect E (Suc m) (a # rest) ts c ofs0
                = collect E m rest ts c (a # filter (\<lambda>o1. \<not> contains E a o1) ofs0))"
proof -
  from collect_worklist [OF assms(2)]
  have ofs: "ofs = foldl (\<lambda>os a. order_step E a os) [] (worklist E n seq)" by simp
  have 1: "non_dominated E ofs"
    unfolding ofs by (rule order_run_non_dominated) simp
  have 2: "set ofs \<subseteq> set (filter is_Order (worklist E n seq))"
    unfolding ofs using order_run_subset [of E "[]" "worklist E n seq"] by simp
  have 3: "flatten E n seq
           = Some (Inr
               (let scalar = (if coeff = Zero \<or> list_ex (\<lambda>o1. contains E o1 coeff) ofs
                              then [] else [coeff]);
                    kept = filter (\<lambda>t. \<not> list_ex (\<lambda>o1. contains E o1 t) ofs)
                             (prune E coeff (concat (map (emit E) terms)));
                    body = sort_key (hash E) (kept @ ofs)
                in if list_ex (flags_noncommutative E) terms
                   then ([], scalar @ body) else (scalar @ body, [])))"
    using flatten_general_path [OF assms]
    by (simp add: finish_eq scalar_of_def body_of_def Let_def)
  have 4: "is_Order a \<and> list_ex (\<lambda>o1. contains E o1 a) ofs0
            \<longrightarrow> collect E (Suc m) (a # rest) ts c ofs0 = collect E m rest ts c ofs0"
    by (simp add: collect_step order_step_def)
  have 5: "is_Order a \<and> \<not> list_ex (\<lambda>o1. contains E o1 a) ofs0
            \<longrightarrow> collect E (Suc m) (a # rest) ts c ofs0
                = collect E m rest ts c (a # filter (\<lambda>o1. \<not> contains E a o1) ofs0)"
    by (simp add: collect_step order_step_def)
  from 1 2 3 4 5 show ?thesis by blast
qed

theorem Order_absorption_witness:
  "shortcut std [Symbol ''x'' [], Order (Symbol ''x'' [])] = Inr None
   \<and> collect std 2 [Symbol ''x'' [], Order (Symbol ''x'' [])] [] Zero []
       = Some (Collected [(Symbol ''x'' [], One)] Zero [Order (Symbol ''x'' [])])
   \<and> flatten std 2 [Symbol ''x'' [], Order (Symbol ''x'' [])]
       = Some (Inr ([Order (Symbol ''x'' [])], []))
   \<and> collect std 1 [Order (Power (Symbol ''x'' []) (Rational 2))] [] Zero [Order (Symbol ''x'' [])]
       = Some (Collected [] Zero [Order (Symbol ''x'' [])])
   \<and> collect std 1 [Order (Symbol ''x'' [])] [] Zero [Order (Power (Symbol ''x'' []) (Rational 2))]
       = Some (Collected [] Zero [Order (Symbol ''x'' [])])"
  using Order_absorption [of std "[Symbol ''x'' [], Order (Symbol ''x'' [])]" 2
     "[(Symbol ''x'' [], One)]" Zero "[Order (Symbol ''x'' [])]"
     "Order (Power (Symbol ''x'' []) (Rational 2))" "[Order (Symbol ''x'' [])]" 0 "[]" "[]" Zero]
    Order_absorption [of std "[Symbol ''x'' [], Order (Symbol ''x'' [])]" 2
     "[(Symbol ''x'' [], One)]" Zero "[Order (Symbol ''x'' [])]"
     "Order (Symbol ''x'' [])" "[Order (Power (Symbol ''x'' []) (Rational 2))]" 0 "[]" "[]" Zero]
  by (simp add: run_defs emit_def flags_noncommutative_def)

text \<open>
  The claim as the spec words it fails: \<^verbatim>\<open>O(a**2)\<close> has the smaller key and comes out
  before the term \<^verbatim>\<open>z\<close>.
\<close>

theorem Order_not_at_tail_counterexample:
  "flatten std 2 [Symbol ''z'' [], Order (Power (Symbol ''a'' []) (Rational 2))]
     = Some (Inr ([Order (Power (Symbol ''a'' []) (Rational 2)), Symbol ''z'' []], []))"
  by (simp add: run_defs)

section \<open>Substitution in a sum\<close>

lemma as_coeff_Add_Number: "as_coeff_Add e = Inr (c, r) \<Longrightarrow> is_Number c"
  by (induction e rule: as_coeff_Add.induct) (auto split: if_splits)

lemma as_coeff_add_Number: "as_coeff_add e = Inr (c, ts) \<Longrightarrow> is_Number c"
proof (induction e arbitrary: c ts rule: as_coeff_add.induct)
  case 1
  then show ?case by simp
next
  case (2 a rest)
  then show ?case by (auto split: sum.splits if_splits)
qed (auto split: if_splits)

lemma neg_Number: "is_Number c \<Longrightarrow> neg E n c = Some (Inr (num_neg c))"
  by (cases c) simp_all

lemma bind_result_return:
  "bind_result (bind_result X (\<lambda>r. Some (Inr (Some r))))
     (\<lambda>r1. case r1 of Some v \<Rightarrow> Some (Inr v) | None \<Rightarrow> Y) = X"
proof (cases X)
  case None
  then show ?thesis by simp
next
  case (Some a)
  then show ?thesis by (cases a) simp_all
qed

lemma bind_result_assoc:
  "bind_result (bind_result X f) g = bind_result X (\<lambda>v. bind_result (f v) g)"
proof (cases X)
  case None
  then show ?thesis by simp
next
  case (Some a)
  then show ?thesis by (cases a) simp_all
qed

text \<open>
  C9. \<^verbatim>\<open>self._eval_subs(old, new)\<close> for \<^verbatim>\<open>self\<close> other than \<^verbatim>\<open>old\<close>, in the order of
  the code. With \<^verbatim>\<open>(c1, r1)\<close> and \<^verbatim>\<open>(c2, r2)\<close> the leading coefficients and remainders of
  \<^verbatim>\<open>self\<close> and \<^verbatim>\<open>old\<close> (the coefficients are always rational numbers here): equal
  remainders give \<^verbatim>\<open>Add(new, c1, -c2)\<close>, and a remainder that is the negative of the other
  gives \<^verbatim>\<open>Add(-new, c1, c2)\<close>: coefficient arithmetic, no operand is visited. Otherwise,
  when \<^verbatim>\<open>old\<close> is a sum with fewer operands that are not numbers than \<^verbatim>\<open>self\<close>, and they
  are a proper subset of those of \<^verbatim>\<open>self\<close>, the result is \<^verbatim>\<open>Add\<close> of \<^verbatim>\<open>new\<close>, the
  coefficient of \<^verbatim>\<open>self\<close>, the negative coefficient of \<^verbatim>\<open>old\<close>, and the operands of
  \<^verbatim>\<open>self\<close> outside the subset, each with the substitution applied.
\<close>

theorem subs_in_sum:
  assumes "self \<noteq> old"
    and "as_coeff_Add self = Inr (c1, r1)" and "as_coeff_Add old = Inr (c2, r2)"
  shows "(r1 = r2 \<longrightarrow>
            eval_subs E sub n self old new = Add_new E n [new, c1, num_neg c2])
       \<and> (r1 \<noteq> r2 \<and> neg E n r2 = Some (Inr r1) \<longrightarrow>
            eval_subs E sub n self old new
              = bind_result (neg E n new) (\<lambda>nn. Add_new E n [nn, c1, c2]))
       \<and> (r1 \<noteq> r2 \<and> neg E n r2 = Some (Inr r3) \<and> r3 \<noteq> r1 \<and> is_Add old
            \<and> as_coeff_add self = Inr (c_self, t_self) \<and> as_coeff_add old = Inr (c_old, t_old)
            \<and> length t_old < length t_self \<and> set t_old \<subset> set t_self \<longrightarrow>
            eval_subs E sub n self old new
              = Add_new E n
                  (new # c_self # num_neg c_old
                     # map (\<lambda>s. sub s old new) (filter (\<lambda>s. s \<notin> set t_old) (remdups t_self))))"
proof (intro conjI impI)
  have rat: "is_Rational c1 \<and> is_Rational c2"
    using assms(2,3) by (auto dest: as_coeff_Add_Number)
  have n2: "neg E n c2 = Some (Inr (num_neg c2))"
    using assms(3) by (auto dest: as_coeff_Add_Number intro: neg_Number)
  {
    assume "r1 = r2"
    then have "subs_by_coefficient E n self old new
        = bind_result (Add_new E n [new, c1, num_neg c2]) (\<lambda>r. Some (Inr (Some r)))"
      using assms(2,3) rat n2 by (simp add: subs_by_coefficient_def)
    then show "eval_subs E sub n self old new = Add_new E n [new, c1, num_neg c2]"
      using assms(1) by (simp add: eval_subs_def bind_result_return)
  }
  {
    assume "r1 \<noteq> r2 \<and> neg E n r2 = Some (Inr r1)"
    then have "subs_by_coefficient E n self old new
        = bind_result (bind_result (neg E n new) (\<lambda>nn. Add_new E n [nn, c1, c2]))
            (\<lambda>r. Some (Inr (Some r)))"
      using assms(2,3) rat
      by (simp add: subs_by_coefficient_def bind_result_assoc)
    then show "eval_subs E sub n self old new
              = bind_result (neg E n new) (\<lambda>nn. Add_new E n [nn, c1, c2])"
      using assms(1) by (simp add: eval_subs_def bind_result_return)
  }
  {
    assume H: "r1 \<noteq> r2 \<and> neg E n r2 = Some (Inr r3) \<and> r3 \<noteq> r1 \<and> is_Add old
            \<and> as_coeff_add self = Inr (c_self, t_self) \<and> as_coeff_add old = Inr (c_old, t_old)
            \<and> length t_old < length t_self \<and> set t_old \<subset> set t_self"
    then have 1: "subs_by_coefficient E n self old new = Some (Inr None)"
      using assms(2,3) rat by (auto simp: subs_by_coefficient_def)
    have nco: "neg E n c_old = Some (Inr (num_neg c_old))"
      using H by (auto dest: as_coeff_add_Number intro: neg_Number)
    have 2: "subs_by_subset E sub n self old new
        = bind_result (Add_new E n
                  (new # c_self # num_neg c_old
                     # map (\<lambda>s. sub s old new) (filter (\<lambda>s. s \<notin> set t_old) (remdups t_self))))
            (\<lambda>r. Some (Inr (Some r)))"
      using H nco by (simp add: subs_by_subset_def)
    show "eval_subs E sub n self old new
              = Add_new E n
                  (new # c_self # num_neg c_old
                     # map (\<lambda>s. sub s old new) (filter (\<lambda>s. s \<notin> set t_old) (remdups t_self)))"
      using assms(1) by (simp add: eval_subs_def 1 2 bind_result_return)
  }
qed

lemma pattern_is_proper_subset:
  "set [Symbol ''b'' [], Symbol ''c'' []]
     \<subset> set [Symbol ''a'' [], Symbol ''b'' [], Symbol ''c'' [], Symbol ''d'' []]"
proof (rule psubsetI)
  show "set [Symbol ''b'' [], Symbol ''c'' []]
     \<subseteq> set [Symbol ''a'' [], Symbol ''b'' [], Symbol ''c'' [], Symbol ''d'' []]"
    by simp
  have "Symbol ''a'' [] \<notin> set [Symbol ''b'' [], Symbol ''c'' []]" by simp
  moreover have "Symbol ''a'' [] \<in> set [Symbol ''a'' [], Symbol ''b'' [], Symbol ''c'' [], Symbol ''d'' []]"
    by simp
  ultimately show "set [Symbol ''b'' [], Symbol ''c'' []]
     \<noteq> set [Symbol ''a'' [], Symbol ''b'' [], Symbol ''c'' [], Symbol ''d'' []]"
    by metis
qed

theorem subs_in_sum_witness:
  "eval_subs std (\<lambda>s old new. if s = old then new else s) 4
      (Add [Symbol ''a'' [], Symbol ''b'' [], Symbol ''c'' [], Symbol ''d'' []])
      (Add [Symbol ''b'' [], Symbol ''c'' []]) (Symbol ''x'' [])
     = Some (Inr (Add [Symbol ''a'' [], Symbol ''d'' [], Symbol ''x'' []]))
   \<and> eval_subs std (\<lambda>s old new. if s = old then new else s) 4
      (Add [Rational 2, Symbol ''a'' []]) (Add [Rational 3, Symbol ''a'' []]) (Symbol ''y'' [])
     = Some (Inr (Add [NegativeOne, Symbol ''y'' []]))
   \<and> eval_subs std (\<lambda>s old new. if s = old then new else s) 4
      (Add [Rational 2, Symbol ''a'' []]) (Add [Rational (- 3), Mul [NegativeOne, Symbol ''a'' []]])
      (Symbol ''y'' [])
     = Some (Inr (Add [NegativeOne, Mul [NegativeOne, Symbol ''y'' []]]))"
proof (intro conjI)
  let ?sub = "\<lambda>s old new :: expr. if s = old then new else s"
  let ?abcd = "[Symbol ''a'' [], Symbol ''b'' [], Symbol ''c'' [], Symbol ''d'' []]"
  let ?bc = "[Symbol ''b'' [], Symbol ''c'' []]"
  let ?nbc = "Add [Mul [NegativeOne, Symbol ''b'' []], Mul [NegativeOne, Symbol ''c'' []]]"
  have h1: "Add ?abcd \<noteq> Add ?bc" by simp
  have h2: "as_coeff_Add (Add ?abcd) = Inr (Zero, Add ?abcd)" by simp
  have h3: "as_coeff_Add (Add ?bc) = Inr (Zero, Add ?bc)" by simp
  have ng: "neg std 4 (Add ?bc) = Some (Inr ?nbc)"
    by (simp add: Add_new_def run_defs)
  have g: "Add ?abcd \<noteq> Add ?bc \<and> neg std 4 (Add ?bc) = Some (Inr ?nbc) \<and> ?nbc \<noteq> Add ?abcd
        \<and> is_Add (Add ?bc)
        \<and> as_coeff_add (Add ?abcd) = Inr (Zero, ?abcd) \<and> as_coeff_add (Add ?bc) = Inr (Zero, ?bc)
        \<and> length ?bc < length ?abcd \<and> set ?bc \<subset> set ?abcd"
    using ng pattern_is_proper_subset by simp
  note th = subs_in_sum [OF h1 h2 h3, where E = std and sub = ?sub and n = 4
      and new = "Symbol ''x'' []" and ?r3.0 = ?nbc and c_self = Zero and t_self = ?abcd
      and c_old = Zero and t_old = ?bc]
  have "eval_subs std ?sub 4 (Add ?abcd) (Add ?bc) (Symbol ''x'' [])
      = Add_new std 4 (Symbol ''x'' [] # Zero # num_neg Zero
          # map (\<lambda>s. ?sub s (Add ?bc) (Symbol ''x'' []))
              (filter (\<lambda>s. s \<notin> set ?bc) (remdups ?abcd)))"
    by (rule th [THEN conjunct2, THEN conjunct2, THEN mp, OF g])
  also have "\<dots> = Some (Inr (Add [Symbol ''a'' [], Symbol ''d'' [], Symbol ''x'' []]))"
    by (simp add: Add_new_def run_defs)
  finally show "eval_subs std ?sub 4 (Add ?abcd) (Add ?bc) (Symbol ''x'' [])
     = Some (Inr (Add [Symbol ''a'' [], Symbol ''d'' [], Symbol ''x'' []]))" .
next
  let ?sub = "\<lambda>s old new :: expr. if s = old then new else s"
  let ?self = "Add [Rational 2, Symbol ''a'' []]" and ?old = "Add [Rational 3, Symbol ''a'' []]"
  have h1: "?self \<noteq> ?old" by simp
  have h2: "as_coeff_Add ?self = Inr (Rational 2, Symbol ''a'' [])" by simp
  have h3: "as_coeff_Add ?old = Inr (Rational 3, Symbol ''a'' [])" by simp
  note th = subs_in_sum [OF h1 h2 h3, where E = std and sub = ?sub and n = 4
      and new = "Symbol ''y'' []"]
  have "eval_subs std ?sub 4 ?self ?old (Symbol ''y'' [])
      = Add_new std 4 [Symbol ''y'' [], Rational 2, num_neg (Rational 3)]"
    by (rule th [THEN conjunct1, THEN mp, OF refl])
  also have "\<dots> = Some (Inr (Add [NegativeOne, Symbol ''y'' []]))"
    by (simp add: Add_new_def run_defs)
  finally show "eval_subs std ?sub 4 ?self ?old (Symbol ''y'' [])
     = Some (Inr (Add [NegativeOne, Symbol ''y'' []]))" .
next
  let ?sub = "\<lambda>s old new :: expr. if s = old then new else s"
  let ?self = "Add [Rational 2, Symbol ''a'' []]"
  let ?old = "Add [Rational (- 3), Mul [NegativeOne, Symbol ''a'' []]]"
  have h1: "?self \<noteq> ?old" by simp
  have h2: "as_coeff_Add ?self = Inr (Rational 2, Symbol ''a'' [])" by simp
  have h3: "as_coeff_Add ?old = Inr (Rational (- 3), Mul [NegativeOne, Symbol ''a'' []])" by simp
  have g: "Symbol ''a'' [] \<noteq> Mul [NegativeOne, Symbol ''a'' []]
       \<and> neg std 4 (Mul [NegativeOne, Symbol ''a'' []]) = Some (Inr (Symbol ''a'' []))"
    by (simp add: std_def)
  note th = subs_in_sum [OF h1 h2 h3, where E = std and sub = ?sub and n = 4
      and new = "Symbol ''y'' []"]
  have "eval_subs std ?sub 4 ?self ?old (Symbol ''y'' [])
      = bind_result (neg std 4 (Symbol ''y'' []))
          (\<lambda>nn. Add_new std 4 [nn, Rational 2, Rational (- 3)])"
    by (rule th [THEN conjunct2, THEN conjunct1, THEN mp, OF g])
  also have "\<dots> = Some (Inr (Add [NegativeOne, Mul [NegativeOne, Symbol ''y'' []]]))"
    by (simp add: Add_new_def run_defs)
  finally show "eval_subs std ?sub 4 ?self ?old (Symbol ''y'' [])
     = Some (Inr (Add [NegativeOne, Mul [NegativeOne, Symbol ''y'' []]]))" .
qed

end
